theory Spec2Isabelle
  imports Main
begin

section \<open>Python values, text and exceptions\<close>

text \<open>
  The monitor is one Python module, \<^verbatim>\<open>gpu_checker.py\<close>. Its text values are modelled
  as \<^typ>\<open>string\<close>, that is as lists of characters with code points below 256; the
  library functions the module calls on text (\<^verbatim>\<open>split\<close>, \<^verbatim>\<open>replace\<close>, \<^verbatim>\<open>lower\<close>,
  \<^verbatim>\<open>int\<close>, \<^verbatim>\<open>str\<close>) are modelled on that range of characters. An exception is a value
  of type \<open>error\<close>, and a computation that may raise returns \<open>error + 'a\<close>.
\<close>

datatype error =
    Exception string
  | IndexError
  | ValueError
  | KeyError string
  | OSError
  | UnicodeDecodeError
  | SMTPException
  | InterpolationSyntaxError
  | InterpolationMissingOptionError
  | InterpolationDepthError
  | MissingSectionHeaderError
  | DuplicateSectionError
  | DuplicateOptionError
  | ParsingError

text \<open>The values a Python name of this module may hold where a boolean is expected.\<close>

datatype pyval = NoneVal | BoolVal bool

fun truthy :: "pyval \<Rightarrow> bool" where
  "truthy NoneVal = False"
| "truthy (BoolVal b) = b"

abbreviation NL :: char where "NL \<equiv> CHR 0x0A"
abbreviation TAB :: char where "TAB \<equiv> CHR 0x09"
abbreviation SP :: char where "SP \<equiv> CHR '' ''"

text \<open>\<^verbatim>\<open>s.split(sep)\<close> for a separator of one character: the fields between the
  occurrences of the separator, empty fields included; never an empty list.\<close>

fun py_split :: "char \<Rightarrow> string \<Rightarrow> string list" where
  "py_split sep [] = [[]]"
| "py_split sep (c # cs) =
     (let fields = py_split sep cs
      in if c = sep then [] # fields else (c # hd fields) # tl fields)"

text \<open>\<^verbatim>\<open>s.replace(old, new)\<close> for \<open>old\<close> of one character.\<close>

definition str_replace :: "char \<Rightarrow> string \<Rightarrow> string \<Rightarrow> string" where
  "str_replace old new s = concat (map (\<lambda>c. if c = old then new else [c]) s)"

text \<open>\<^verbatim>\<open>xs[i]\<close>: a negative index counts from the end, an index out of range raises.\<close>

definition getitem :: "'a list \<Rightarrow> int \<Rightarrow> error + 'a" where
  "getitem xs i =
     (if 0 \<le> i \<and> i < int (length xs) then Inr (xs ! nat i)
      else if i < 0 \<and> - int (length xs) \<le> i then Inr (xs ! nat (int (length xs) + i))
      else Inl IndexError)"

text \<open>A list comprehension \<^verbatim>\<open>[f(x) for x in xs]\<close> whose body may raise: the first
  exception, from left to right, ends it.\<close>

fun list_comp :: "('a \<Rightarrow> error + 'b) \<Rightarrow> 'a list \<Rightarrow> error + 'b list" where
  "list_comp f [] = Inr []"
| "list_comp f (x # xs) =
     (case f x of
        Inl e \<Rightarrow> Inl e
      | Inr y \<Rightarrow> (case list_comp f xs of Inl e \<Rightarrow> Inl e | Inr ys \<Rightarrow> Inr (y # ys)))"

text \<open>\<^verbatim>\<open>str(n)\<close> for an integer and for a boolean.\<close>

definition digit_char :: "nat \<Rightarrow> char" where
  "digit_char d = char_of (48 + d)"

fun str_nat :: "nat \<Rightarrow> string" where
  "str_nat n = (if n < 10 then [digit_char n] else str_nat (n div 10) @ [digit_char (n mod 10)])"

definition str_int :: "int \<Rightarrow> string" where
  "str_int i = (if i < 0 then CHR ''-'' # str_nat (nat (- i)) else str_nat (nat i))"

definition str_bool :: "bool \<Rightarrow> string" where
  "str_bool b = (if b then ''True'' else ''False'')"

text \<open>\<^verbatim>\<open>print(a, b, ..., sep='\n')\<close> writes its arguments with the separator between
  them; the text written by one call is one entry of the output.\<close>

fun join_with :: "string \<Rightarrow> string list \<Rightarrow> string" where
  "join_with sep [] = []"
| "join_with sep [x] = x"
| "join_with sep (x # y # ys) = x @ sep @ join_with sep (y # ys)"

text \<open>
  The characters for which \<^verbatim>\<open>str.isspace\<close> holds, below 256; \<^verbatim>\<open>str.strip\<close> removes
  them from both ends, and the regular expressions of \<^verbatim>\<open>configparser\<close> take them for
  \<^verbatim>\<open>\s\<close>.
\<close>

definition is_space :: "char \<Rightarrow> bool" where
  "is_space c =
     (let n = (of_char c :: nat)
      in (9 \<le> n \<and> n \<le> 13) \<or> (28 \<le> n \<and> n \<le> 32) \<or> n = 133 \<or> n = 160)"




text \<open>\<^verbatim>\<open>str.lower\<close> on characters below 256: the letters A to Z, and the capital
  letters from 192 to 222 but for the multiplication sign 215, move up by 32.\<close>

definition char_lower :: "char \<Rightarrow> char" where
  "char_lower c =
     (let n = (of_char c :: nat)
      in if (65 \<le> n \<and> n \<le> 90) \<or> (192 \<le> n \<and> n \<le> 222 \<and> n \<noteq> 215)
         then char_of (n + 32) else c)"

definition str_lower :: "string \<Rightarrow> string" where
  "str_lower s = map char_lower s"

text \<open>
  \<^verbatim>\<open>int(s)\<close> for a text \<open>s\<close>: white space (the characters 9 to 13, 32, 133 and 160)
  around an optional sign and a run of decimal digits, in which single underscores may
  stand between digits; anything else raises \<^verbatim>\<open>ValueError\<close>. So does, in interpreters
  that limit the length of integer literals, a run of more than 640 digits that exceeds
  the limit (a limit of 0 means none).
\<close>

definition int_space :: "char \<Rightarrow> bool" where
  "int_space c =
     (let n = (of_char c :: nat)
      in (9 \<le> n \<and> n \<le> 13) \<or> n = 32 \<or> n = 133 \<or> n = 160)"

definition is_digit :: "char \<Rightarrow> bool" where
  "is_digit c = (let n = (of_char c :: nat) in 48 \<le> n \<and> n \<le> 57)"

definition digit_val :: "char \<Rightarrow> nat" where
  "digit_val c = of_char c - 48"

fun no_double_underscore :: "string \<Rightarrow> bool" where
  "no_double_underscore (a # b # cs) =
     (\<not> (a = CHR ''_'' \<and> b = CHR ''_'') \<and> no_double_underscore (b # cs))"
| "no_double_underscore cs = True"

definition py_int :: "nat \<Rightarrow> string \<Rightarrow> error + int" where
  "py_int max_str_digits s =
     (let s1 = dropWhile int_space s;
          neg = (s1 \<noteq> [] \<and> hd s1 = CHR ''-'');
          s2 = (if s1 \<noteq> [] \<and> (hd s1 = CHR ''+'' \<or> hd s1 = CHR ''-'') then tl s1 else s1);
          body = takeWhile (\<lambda>c. is_digit c \<or> c = CHR ''_'') s2;
          rest = dropWhile (\<lambda>c. is_digit c \<or> c = CHR ''_'') s2;
          digits = filter is_digit body
      in if body = [] \<or> hd body = CHR ''_'' \<or> last body = CHR ''_''
            \<or> \<not> no_double_underscore body
         then Inl ValueError
         else if 640 < length digits \<and> 0 < max_str_digits \<and> max_str_digits < length digits
         then Inl ValueError
         else if dropWhile int_space rest \<noteq> [] then Inl ValueError
         else Inr ((if neg then - 1 else 1)
                   * int (foldl (\<lambda>acc c. 10 * acc + digit_val c) 0 digits)))"

section \<open>Helpers of the module\<close>

text \<open>
  \<^verbatim>\<open>
  def str_to_bool(string):
      if string.lower() in ['true', '1', 't', 'y', 'yes']:
          return True
      if string.lower() in ['false', '0', 'f', 'n', 'no']:
          return False
      return None
  \<close>
\<close>

definition str_to_bool :: "string \<Rightarrow> pyval" where
  "str_to_bool string =
     (if str_lower string \<in> set [''true'', ''1'', ''t'', ''y'', ''yes''] then BoolVal True
      else if str_lower string \<in> set [''false'', ''0'', ''f'', ''n'', ''no''] then BoolVal False
      else NoneVal)"

text \<open>
  \<^verbatim>\<open>
  def multiline_str(*argv: str) -> str:
      string = ''
      for arg in argv:
          string = string + str(arg) + '\n'
      string = string[0:-1] # remove final newline
      return string
  \<close>
\<close>

definition multiline_str :: "string list \<Rightarrow> string" where
  "multiline_str argv = butlast (foldl (\<lambda>string arg. string @ arg @ [NL]) [] argv)"

text \<open>
  \<^verbatim>\<open>
  def purge_element(_list: list, elem_to_purge) -> list:
      return list(filter(lambda elem: elem != elem_to_purge, _list))
  \<close>
\<close>

definition purge_element :: "'a list \<Rightarrow> 'a \<Rightarrow> 'a list" where
  "purge_element lst elem_to_purge = filter (\<lambda>elem. elem \<noteq> elem_to_purge) lst"

section \<open>The configuration store\<close>

text \<open>
  \<^verbatim>\<open>CONFIG\<close> is a \<^verbatim>\<open>configparser.ConfigParser()\<close> with the library's standard settings. The
  store keeps the options of the \<^verbatim>\<open>DEFAULT\<close> section and the other sections in the
  order they were added, as Python's dictionaries do.
\<close>

type_synonym options = "(string \<times> string) list"

record config_parser =
  cp_defaults :: options
  cp_sections :: "(string \<times> options) list"



text \<open>The pattern \<^verbatim>\<open>%\(([^)]+)\)s\<close> of an interpolation reference, matched on the text
  that follows \<^verbatim>\<open>%(\<close>: the name and the text after the reference.\<close>

definition match_keyref :: "string \<Rightarrow> (string \<times> string) option" where
  "match_keyref r =
     (let name = takeWhile (\<lambda>c. c \<noteq> CHR '')'') r;
          after = dropWhile (\<lambda>c. c \<noteq> CHR '')'') r
      in case after of
           c1 # c2 # rest \<Rightarrow>
             if name \<noteq> [] \<and> c2 = CHR ''s'' then Some (name, rest) else None
         | _ \<Rightarrow> None)"

text \<open>
  \<^verbatim>\<open>BasicInterpolation._interpolate_some\<close>, entered at a depth of at most 10: text is
  copied up to a percent sign; \<^verbatim>\<open>%%\<close> gives a percent sign; \<^verbatim>\<open>%(name)s\<close> gives the value
  of the option \<open>name\<close>, itself interpolated one level deeper when it holds a percent
  sign; any other use of the percent sign is an error.
\<close>

function interpolate_some :: "(string \<Rightarrow> string option) \<Rightarrow> nat \<Rightarrow> string \<Rightarrow> error + string" where
  "interpolate_some m depth [] = Inr []"
| "interpolate_some m depth (c # cs) =
     (if c \<noteq> CHR ''%'' then
        (case interpolate_some m depth cs of Inl e \<Rightarrow> Inl e | Inr t \<Rightarrow> Inr (c # t))
      else
        (case cs of
           [] \<Rightarrow> Inl InterpolationSyntaxError
         | d # r \<Rightarrow>
             if d = CHR ''%'' then
               (case interpolate_some m depth r of Inl e \<Rightarrow> Inl e | Inr t \<Rightarrow> Inr (CHR ''%'' # t))
             else if d = CHR ''('' then
               (case match_keyref r of
                  None \<Rightarrow> Inl InterpolationSyntaxError
                | Some (name, r') \<Rightarrow>
                    (case m (str_lower name) of
                       None \<Rightarrow> Inl InterpolationMissingOptionError
                     | Some v \<Rightarrow>
                         (case (if CHR ''%'' \<in> set v
                                then (if 10 < depth + 1 then Inl InterpolationDepthError
                                      else interpolate_some m (depth + 1) v)
                                else Inr v) of
                            Inl e \<Rightarrow> Inl e
                          | Inr t1 \<Rightarrow>
                              (case interpolate_some m depth r' of
                                 Inl e \<Rightarrow> Inl e
                               | Inr t2 \<Rightarrow> Inr (t1 @ t2)))))
             else Inl InterpolationSyntaxError))"
  by pat_completeness auto
termination
proof (relation "measures [\<lambda>(m, depth, rest). 11 - depth, \<lambda>(m, depth, rest). length rest]")
  fix m :: "string \<Rightarrow> string option" and depth :: nat and c :: char and cs :: string
    and d :: char and r :: string and x2 :: "string \<times> string" and name :: string
    and r' :: string
  assume "match_keyref r = Some x2" and "(name, r') = x2" and "cs = d # r"
  then have "length r' \<le> length (dropWhile (\<lambda>c. c \<noteq> CHR '')'') r)"
    by (auto simp: match_keyref_def Let_def split: list.splits if_splits)
  also have "\<dots> \<le> length r"
    by (rule length_dropWhile_le)
  finally show "((m, depth, r'), (m, depth, c # cs)) \<in>
      measures [\<lambda>(m, depth, rest). 11 - depth, \<lambda>(m, depth, rest). length rest]"
    using \<open>cs = d # r\<close> by simp
qed auto

text \<open>
  \<^verbatim>\<open>CONFIG[section][key]\<close>: \<^verbatim>\<open>KeyError\<close> without the section or without the option (looked
  up by its lower-case name, in the section and then among the defaults); otherwise the
  value, interpolated.
\<close>

definition unify_values :: "config_parser \<Rightarrow> string \<Rightarrow> string \<Rightarrow> string option" where
  "unify_values cp section =
     (case map_of (cp_sections cp) section of
        None \<Rightarrow> map_of (cp_defaults cp)
      | Some opts \<Rightarrow> (\<lambda>k. case map_of opts k of
                              None \<Rightarrow> map_of (cp_defaults cp) k
                            | Some v \<Rightarrow> Some v))"

definition has_option :: "config_parser \<Rightarrow> string \<Rightarrow> string \<Rightarrow> bool" where
  "has_option cp section option =
     (if section = [] \<or> section = ''DEFAULT''
      then map_of (cp_defaults cp) (str_lower option) \<noteq> None
      else (case map_of (cp_sections cp) section of
              None \<Rightarrow> False
            | Some opts \<Rightarrow> map_of opts (str_lower option) \<noteq> None
                           \<or> map_of (cp_defaults cp) (str_lower option) \<noteq> None))"

definition cfg_get :: "config_parser \<Rightarrow> string \<Rightarrow> string \<Rightarrow> error + string" where
  "cfg_get cp section key =
     (if section \<noteq> ''DEFAULT'' \<and> map_of (cp_sections cp) section = None
      then Inl (KeyError section)
      else if \<not> has_option cp section key then Inl (KeyError key)
      else (case unify_values cp section (str_lower key) of
              None \<Rightarrow> Inl (KeyError key)
            | Some v \<Rightarrow> interpolate_some (unify_values cp section) 1 v))"

















section \<open>The world outside the module\<close>

text \<open>
  What \<^verbatim>\<open>subprocess.run(command, capture_output=True, shell=True)\<close> gives back when it
  returns: the two captured streams, which are bytes, and the return code. Of a captured
  stream the module uses nothing but its strict decoding, \<^verbatim>\<open>str(stream, 'UTF-8')\<close>:
  either the bytes are the UTF-8 form of a text, or they are not, and decoding raises.
\<close>

datatype captured = Decodes string | Undecodable

fun decode :: "captured \<Rightarrow> error + string" where
  "decode (Decodes text) = Inr text"
| "decode Undecodable = Inl UnicodeDecodeError"

record completed_process =
  stdout :: captured
  stderr :: captured
  returncode :: int

text \<open>A call of \<^verbatim>\<open>send_email\<close>, with its four arguments.\<close>

record email_call =
  mail_to :: string
  mail_from :: string
  mail_subject :: string
  mail_body :: string

text \<open>
  The collaborators. The shell: for a command, \<^verbatim>\<open>subprocess.run\<close> either raises (no
  shell can be started, say) or returns. The mail library: building the message from
  the body and the three headers goes through or raises. The mail relay: the session of
  connect, login, send and quit for a message goes through or raises (the arguments
  are the encryption flag, host, port, user, password and the message). The
  interpreter: its limit on the digits of an integer literal read by \<^verbatim>\<open>int\<close> (0 for no
  limit). Where a collaborator may raise, \<open>None\<close> stands for no exception.
\<close>

record env =
  run :: "string \<Rightarrow> error + completed_process"
  message_error :: "email_call \<Rightarrow> error option"
  smtp :: "bool \<Rightarrow> string \<Rightarrow> int \<Rightarrow> string \<Rightarrow> string \<Rightarrow> email_call \<Rightarrow> error option"
  int_max_str_digits :: nat

text \<open>What the module leaves behind: the lines it printed, the commands it had the shell
  run, the calls of \<^verbatim>\<open>send_email\<close> it made, and the messages the relay took.\<close>

record world =
  printed :: "string list"
  commands :: "string list"
  notifications :: "email_call list"
  delivered :: "email_call list"

definition print :: "string \<Rightarrow> world \<Rightarrow> world" where
  "print line w = w\<lparr>printed := printed w @ [line]\<rparr>"

section \<open>Command Executor\<close>

text \<open>
  \<^verbatim>\<open>
  class ShellRunner:
      def __init__(self, command):
          ...
          self.run_shell_command(command)

      def run_shell_command(self, command) -> None:
          process = subprocess.run(command, capture_output=True, shell=True)
          self.shell_output = str(process.stdout, 'UTF-8')
          self.shell_error = str(process.stderr, 'UTF-8')
          self.exit_code = process.returncode
          self.success = self.exit_code == 0
          self.command_report = multiline_str(
              "command:", command, f"command success: {self.success}", '',
              "stdout:", self.shell_output, '',
              "stderr:", self.shell_error, '',
              "exit code:", self.exit_code)
  \<close>
  Making a \<^verbatim>\<open>ShellRunner\<close> can raise: \<^verbatim>\<open>subprocess.run\<close> refuses a command that holds the
  character 0 (\<^verbatim>\<open>ValueError\<close>, before any process is started) and may fail to start
  the shell; each of the two decodings may fail. No exception is raised for an exit
  status other than zero.
\<close>

record shell_runner =
  shell_output :: string
  shell_error :: string
  exit_code :: int
  success :: bool
  command_report :: string

definition ShellRunner :: "env \<Rightarrow> string \<Rightarrow> world \<Rightarrow> (error + shell_runner) \<times> world" where
  "ShellRunner e command w =
     (if CHR 0x00 \<in> set command then (Inl ValueError, w)
      else
        case run e command of
          Inl err \<Rightarrow> (Inl err, w)
        | Inr process \<Rightarrow>
            let w = w\<lparr>commands := commands w @ [command]\<rparr>
            in case decode (stdout process) of
                 Inl err \<Rightarrow> (Inl err, w)
               | Inr out \<Rightarrow>
               case decode (stderr process) of
                 Inl err \<Rightarrow> (Inl err, w)
               | Inr errors \<Rightarrow>
                   let code = returncode process;
                       ok = (code = 0)
                   in (Inr \<lparr> shell_output = out,
                              shell_error = errors,
                              exit_code = code,
                              success = ok,
                              command_report = multiline_str
                                [''command:'', command, ''command success: '' @ str_bool ok, '''',
                                 ''stdout:'', out, '''',
                                 ''stderr:'', errors, '''',
                                 ''exit code:'', str_int code] \<rparr>, w))"

section \<open>Node Discovery\<close>

text \<open>
  \<^verbatim>\<open>
  def find_slurm_nodes(states: str, partitions: str) -> None:
      command = f"sinfo --states={states} --partition={partitions} -N --noheader"
      command_results = ShellRunner(command)
      success = command_results.success
      shell_output = command_results.shell_output
      command_report = str(command_results)
      if not success:
          raise Exception(command_report) # barf
      shell_output_lines = [line.replace('\n', '') for line in shell_output.split('\n')]
      shell_output_lines = purge_element(shell_output_lines, '')
      nodes = [line.split(' ')[0] for line in shell_output_lines]
      if len(nodes) == 0:
          print(f"no nodes found! {command}")
      return nodes
  \<close>
\<close>

definition sinfo_command :: "string \<Rightarrow> string \<Rightarrow> string" where
  "sinfo_command states partitions =
     ''sinfo --states='' @ states @ '' --partition='' @ partitions @ '' -N --noheader''"

definition find_slurm_nodes ::
  "env \<Rightarrow> string \<Rightarrow> string \<Rightarrow> world \<Rightarrow> (error + string list) \<times> world" where
  "find_slurm_nodes e states partitions w =
     (let command = sinfo_command states partitions
      in case ShellRunner e command w of (made, w) \<Rightarrow>
         case made of
           Inl err \<Rightarrow> (Inl err, w)
         | Inr command_results \<Rightarrow>
             let ok = success command_results;
                 out = shell_output command_results;
                 report = command_report command_results
             in if \<not> ok then (Inl (Exception report), w)
                else
                  let shell_output_lines = map (str_replace NL '''') (py_split NL out);
                      shell_output_lines = purge_element shell_output_lines ''''
                  in case list_comp (\<lambda>line. getitem (py_split SP line) 0) shell_output_lines of
                       Inl err \<Rightarrow> (Inl err, w)
                     | Inr nodes \<Rightarrow>
                         (Inr nodes,
                          if length nodes = 0 then print (''no nodes found! '' @ command) w
                          else w))"

section \<open>Notifier\<close>

text \<open>
  \<^verbatim>\<open>
  def send_email(to: str, _from: str, subject: str, body: str):
      body = multiline_str(body, CONFIG['email']['signature'])
      print("sending email:___________________________________",
          f"to: {to}", f"from: {_from}", f"subject: {subject}", "body:", body, sep='\n')
      msg = EmailMessage()
      msg.set_content(body)
      msg['To'] = to
      msg['From'] = _from
      msg['Subject'] = subject
      hostname = CONFIG['smtp_auth']['hostname']
      port = int(CONFIG['smtp_auth']['port'])
      user = CONFIG['smtp_auth']['user']
      password = CONFIG['smtp_auth']['password']
      is_ssl = str_to_bool(CONFIG['smtp_auth']['is_ssl'])
      if is_ssl:
          s = smtplib.SMTP_SSL(hostname, port, timeout=5)
      else:
          s = smtplib.SMTP(hostname, port, timeout=5)
      s.login(user, password)
      s.send_message(msg)
      s.quit()
      print("email sent successfully!____________________________________________________")
  \<close>
  Every call is entered in \<open>notifications\<close> with the arguments it was given, before
  anything else happens.
\<close>

definition send_email ::
  "env \<Rightarrow> config_parser \<Rightarrow> string \<Rightarrow> string \<Rightarrow> string \<Rightarrow> string \<Rightarrow> world
   \<Rightarrow> (error + pyval) \<times> world" where
  "send_email e CONFIG to from0 subject body w0 =
     (let w = w0\<lparr>notifications := notifications w0
                 @ [\<lparr>mail_to = to, mail_from = from0, mail_subject = subject,
                      mail_body = body\<rparr>]\<rparr>
      in case cfg_get CONFIG ''email'' ''signature'' of
           Inl err \<Rightarrow> (Inl err, w)
         | Inr signature \<Rightarrow>
             let body = multiline_str [body, signature];
                 w = print (join_with [NL]
                       [''sending email:'' @ replicate 35 (CHR ''_''),
                        ''to: '' @ to, ''from: '' @ from0, ''subject: '' @ subject,
                        ''body:'', body]) w;
                 msg = \<lparr>mail_to = to, mail_from = from0, mail_subject = subject,
                        mail_body = body\<rparr>
             in case message_error e msg of
                  Some err \<Rightarrow> (Inl err, w)
                | None \<Rightarrow>
                 (case cfg_get CONFIG ''smtp_auth'' ''hostname'' of
                    Inl err \<Rightarrow> (Inl err, w)
                  | Inr hostname \<Rightarrow>
                  case cfg_get CONFIG ''smtp_auth'' ''port'' of
                    Inl err \<Rightarrow> (Inl err, w)
                  | Inr port_text \<Rightarrow>
                  case py_int (int_max_str_digits e) port_text of
                    Inl err \<Rightarrow> (Inl err, w)
                  | Inr port \<Rightarrow>
                  case cfg_get CONFIG ''smtp_auth'' ''user'' of
                    Inl err \<Rightarrow> (Inl err, w)
                  | Inr user \<Rightarrow>
                  case cfg_get CONFIG ''smtp_auth'' ''password'' of
                    Inl err \<Rightarrow> (Inl err, w)
                  | Inr password \<Rightarrow>
                  case cfg_get CONFIG ''smtp_auth'' ''is_ssl'' of
                    Inl err \<Rightarrow> (Inl err, w)
                  | Inr is_ssl_text \<Rightarrow>
                      let is_ssl = str_to_bool is_ssl_text
                      in (case smtp e (truthy is_ssl) hostname port user password msg of
                            Some err \<Rightarrow> (Inl err, w)
                          | None \<Rightarrow>
                              (Inr NoneVal,
                               print (''email sent successfully!'' @ replicate 52 (CHR ''_''))
                                 (w\<lparr>delivered := delivered w @ [msg]\<rparr>)))))"

section \<open>Remediator\<close>

text \<open>
  \<^verbatim>\<open>
  def drain_node(node: str, reason: str, do_send_email=True):
      command_results = ShellRunner(
          f"scontrol update nodename={node} state=drain reason=\"{reason}\"")
      success = command_results.success
      command_report = str(command_results)
      if do_send_email:
          email_to = CONFIG['email']['to']
          email_from = CONFIG['email']['from']
          if success:
              send_email(email_to, email_from,
                  f"gpu-checker has drained node {node}", command_report)
          else:
              send_email(email_to, email_from,
                  f"ACTION REQUIRED: gpu-checker wanted to drain node {node}, but failed",
                  command_report)
  \<close>
  The function has no \<^verbatim>\<open>return\<close>: when it ends, its value is \<^verbatim>\<open>None\<close>.
\<close>

definition scontrol_command :: "string \<Rightarrow> string \<Rightarrow> string" where
  "scontrol_command node reason =
     ''scontrol update nodename='' @ node @ '' state=drain reason='' @ [CHR 0x22] @ reason
     @ [CHR 0x22]"

definition drain_node ::
  "env \<Rightarrow> config_parser \<Rightarrow> string \<Rightarrow> string \<Rightarrow> pyval \<Rightarrow> world \<Rightarrow> (error + pyval) \<times> world" where
  "drain_node e CONFIG node reason do_send_email w =
     (case ShellRunner e (scontrol_command node reason) w of (made, w) \<Rightarrow>
      case made of
        Inl err \<Rightarrow> (Inl err, w)
      | Inr command_results \<Rightarrow>
          let ok = success command_results;
              report = command_report command_results
          in if truthy do_send_email then
               (case cfg_get CONFIG ''email'' ''to'' of
                  Inl err \<Rightarrow> (Inl err, w)
                | Inr email_to \<Rightarrow>
                case cfg_get CONFIG ''email'' ''from'' of
                  Inl err \<Rightarrow> (Inl err, w)
                | Inr email_from \<Rightarrow>
                    if ok then
                      send_email e CONFIG email_to email_from
                        (''gpu-checker has drained node '' @ node) report w
                    else
                      send_email e CONFIG email_to email_from
                        (''ACTION REQUIRED: gpu-checker wanted to drain node '' @ node
                         @ '', but failed'') report w)
             else (Inr NoneVal, w))"

section \<open>GPU Prober\<close>

text \<open>
  \<^verbatim>\<open>
  def check_gpu(node: str, do_send_email=True) -> bool:
      ssh_user = CONFIG['ssh']['user']
      ssh_privkey = CONFIG['ssh']['keyfile']
      command = (f"ssh {ssh_user}" "@" f"{node} -o \"StrictHostKeyChecking=no\""
                 f" -i {ssh_privkey} nvidia-smi && echo $? || echo $?")
      command_results = ShellRunner(command)
      shell_output = command_results.shell_output
      command_report = str(command_results)
      shell_output_lines = [line.replace('\n', '') for line in shell_output.split('\n')]
      shell_output_lines = purge_element(shell_output_lines, '')
      ssh_exit_code = shell_output_lines[-1]
      success = command_results.success and int(ssh_exit_code) == 0
      if not success and do_send_email:
          email_to = CONFIG['email']['to']
          email_from = CONFIG['email']['from']
          send_email(email_to, email_from,
              f"gpu-checker has detected an error on node {node}", command_report)
      if success:
          print(f"gpu works on node {node}")
      return success
  \<close>
  (The command is one f-string in the module; it is broken into pieces here.) In
  \<^verbatim>\<open>a and b\<close> the right operand is evaluated only when the left one holds.
\<close>

definition ssh_command :: "string \<Rightarrow> string \<Rightarrow> string \<Rightarrow> string" where
  "ssh_command ssh_user node ssh_privkey =
     ''ssh '' @ ssh_user @ ''@'' @ node @ '' -o '' @ [CHR 0x22] @ ''StrictHostKeyChecking=no''
     @ [CHR 0x22] @ '' -i '' @ ssh_privkey @ '' nvidia-smi && echo $? || echo $?''"

definition check_gpu ::
  "env \<Rightarrow> config_parser \<Rightarrow> string \<Rightarrow> pyval \<Rightarrow> world \<Rightarrow> (error + bool) \<times> world" where
  "check_gpu e CONFIG node do_send_email w =
     (case cfg_get CONFIG ''ssh'' ''user'' of
        Inl err \<Rightarrow> (Inl err, w)
      | Inr ssh_user \<Rightarrow>
      case cfg_get CONFIG ''ssh'' ''keyfile'' of
        Inl err \<Rightarrow> (Inl err, w)
      | Inr ssh_privkey \<Rightarrow>
          let command = ssh_command ssh_user node ssh_privkey
          in case ShellRunner e command w of (made, w) \<Rightarrow>
             case made of
               Inl err \<Rightarrow> (Inl err, w)
             | Inr command_results \<Rightarrow>
          let out = shell_output command_results;
              report = command_report command_results;
              shell_output_lines = map (str_replace NL '''') (py_split NL out);
              shell_output_lines = purge_element shell_output_lines ''''
          in case getitem shell_output_lines (- 1) of
               Inl err \<Rightarrow> (Inl err, w)
             | Inr ssh_exit_code \<Rightarrow>
             case (if success command_results
                   then (case py_int (int_max_str_digits e) ssh_exit_code of
                           Inl err \<Rightarrow> Inl err
                         | Inr n \<Rightarrow> Inr (n = 0))
                   else Inr False) of
               Inl err \<Rightarrow> (Inl err, w)
             | Inr ok \<Rightarrow>
             case (if \<not> ok \<and> truthy do_send_email then
                     (case cfg_get CONFIG ''email'' ''to'' of
                        Inl err \<Rightarrow> (Inl err, w)
                      | Inr email_to \<Rightarrow>
                      case cfg_get CONFIG ''email'' ''from'' of
                        Inl err \<Rightarrow> (Inl err, w)
                      | Inr email_from \<Rightarrow>
                          send_email e CONFIG email_to email_from
                            (''gpu-checker has detected an error on node '' @ node) report w)
                   else (Inr NoneVal, w)) of
               (Inl err, w') \<Rightarrow> (Inl err, w')
             | (Inr sent, w') \<Rightarrow>
                 (Inr ok, if ok then print (''gpu works on node '' @ node) w' else w'))"

section \<open>Start of the program\<close>





definition read_settings :: "config_parser \<Rightarrow> error + (string \<times> string \<times> pyval)" where
  "read_settings CONFIG =
     (case cfg_get CONFIG ''nodes'' ''states_to_check'' of
        Inl err \<Rightarrow> Inl err
      | Inr states \<Rightarrow>
      case cfg_get CONFIG ''nodes'' ''partitions_to_check'' of
        Inl err \<Rightarrow> Inl err
      | Inr partitions \<Rightarrow>
      case cfg_get CONFIG ''email'' ''enabled'' of
        Inl err \<Rightarrow> Inl err
      | Inr enabled \<Rightarrow> Inr (states, partitions, str_to_bool enabled))"

section \<open>Notions of the specification\<close>

text \<open>
  The specification speaks of blank lines and of the first token of a line that white
  space delimits. A line is blank when it holds white space only; its first token is
  what \<^verbatim>\<open>line.split()[0]\<close> gives. Scheduler output is well formed when no line starts
  with a space and the only white space inside a line is the space character.
\<close>

definition blank :: "string \<Rightarrow> bool" where
  "blank line = list_all is_space line"

definition first_token :: "string \<Rightarrow> string" where
  "first_token line = takeWhile (\<lambda>c. \<not> is_space c) (dropWhile is_space line)"

definition well_formed_line :: "string \<Rightarrow> bool" where
  "well_formed_line line =
     (list_all (\<lambda>c. is_space c \<longrightarrow> c = SP) line \<and> (line \<noteq> [] \<longrightarrow> hd line \<noteq> SP))"

definition well_formed :: "string \<Rightarrow> bool" where
  "well_formed out = list_all well_formed_line (py_split NL out)"

definition non_blank_lines :: "string \<Rightarrow> string list" where
  "non_blank_lines out = filter (\<lambda>line. \<not> blank line) (py_split NL out)"

section \<open>Sample inputs\<close>

text \<open>A shell that answers every command with the same captured output and return
  code, next to a mail library and a relay that take every message; a world in which
  nothing has happened yet; a configuration with every option the module reads.\<close>

definition shell_returning :: "captured \<Rightarrow> int \<Rightarrow> env" where
  "shell_returning out rc =
     \<lparr> run = (\<lambda>command. Inr \<lparr>stdout = out, stderr = Decodes [], returncode = rc\<rparr>),
       message_error = (\<lambda>msg. None),
       smtp = (\<lambda>is_ssl hostname port user password msg. None),
       int_max_str_digits = 4300 \<rparr>"

definition shell_giving :: "string \<Rightarrow> int \<Rightarrow> env" where
  "shell_giving out rc = shell_returning (Decodes out) rc"

definition new_world :: world where
  "new_world = \<lparr>printed = [], commands = [], notifications = [], delivered = []\<rparr>"

definition sample_config :: config_parser where
  "sample_config =
     \<lparr> cp_defaults = [],
       cp_sections =
         [(''nodes'', [(''states_to_check'', ''mixed,idle''), (''partitions_to_check'', ''gpu'')]),
          (''ssh'', [(''user'', ''root''), (''keyfile'', ''/root/.ssh/id'')]),
          (''email'', [(''enabled'', ''maybe''), (''to'', ''ops@example.org''),
                       (''from'', ''gpu@example.org''), (''signature'', ''gpu-checker'')]),
          (''smtp_auth'', [(''hostname'', ''localhost''), (''port'', ''25''), (''user'', ''u''),
                           (''password'', ''p''), (''is_ssl'', ''no'')])] \<rparr>"

text \<open>The node names the module reads off an output: of every line that is not empty,
  the part before the first space.\<close>

definition node_names :: "string \<Rightarrow> string list" where
  "node_names out = map (takeWhile (\<lambda>c. c \<noteq> SP)) (filter (\<lambda>l. l \<noteq> []) (py_split NL out))"

section \<open>Properties of the text functions\<close>

lemma py_split_not_Nil: "py_split sep s \<noteq> []"
  by (induction s) (auto simp: Let_def)

lemma py_split_no_sep: "l \<in> set (py_split sep s) \<Longrightarrow> sep \<notin> set l"
proof (induction s arbitrary: l)
  case Nil
  then show ?case by simp
next
  case (Cons c cs)
  have ne: "py_split sep cs \<noteq> []" by (rule py_split_not_Nil)
  show ?case
  proof (cases "c = sep")
    case True
    with Cons show ?thesis by (auto simp: Let_def)
  next
    case False
    with Cons.prems have "l = c # hd (py_split sep cs) \<or> l \<in> set (tl (py_split sep cs))"
      by (auto simp: Let_def)
    then show ?thesis
    proof
      assume "l = c # hd (py_split sep cs)"
      moreover have "sep \<notin> set (hd (py_split sep cs))"
        using Cons.IH [of "hd (py_split sep cs)"] ne by simp
      ultimately show ?thesis using False by auto
    next
      assume "l \<in> set (tl (py_split sep cs))"
      then have "l \<in> set (py_split sep cs)" by (rule list.set_sel(2)[OF ne])
      then show ?thesis by (rule Cons.IH)
    qed
  qed
qed

lemma hd_py_split: "hd (py_split sep s) = takeWhile (\<lambda>c. c \<noteq> sep) s"
  by (induction s) (auto simp: Let_def)

lemma str_replace_absent: "old \<notin> set s \<Longrightarrow> str_replace old new s = s"
  by (induction s) (auto simp: str_replace_def)

lemma replace_after_split: "map (str_replace sep new) (py_split sep s) = py_split sep s"
  by (rule map_idI) (simp add: py_split_no_sep str_replace_absent)

lemma getitem_first: "xs \<noteq> [] \<Longrightarrow> getitem xs 0 = Inr (hd xs)"
  by (cases xs) (auto simp: getitem_def)

lemma getitem_last: "getitem xs (- 1) = (if xs = [] then Inl IndexError else Inr (last xs))"
proof (cases "xs = []")
  case True
  then show ?thesis by (simp add: getitem_def)
next
  case False
  then have "nat (int (length xs) - 1) = length xs - 1" and "1 \<le> int (length xs)"
    by (simp_all add: Suc_leI)
  with False show ?thesis
    by (simp add: getitem_def last_conv_nth)
qed

lemma list_comp_total: "(\<And>x. x \<in> set xs \<Longrightarrow> f x = Inr (g x)) \<Longrightarrow> list_comp f xs = Inr (map g xs)"
  by (induction xs) auto

lemma first_fields:
  "list_comp (\<lambda>line. getitem (py_split sep line) 0) ls = Inr (map (takeWhile (\<lambda>c. c \<noteq> sep)) ls)"
  by (rule list_comp_total) (simp add: getitem_first py_split_not_Nil hd_py_split)

lemma ShellRunner_returns:
  assumes "ShellRunner e c w = (Inr sr, w')"
  shows "success sr = (exit_code sr = 0)"
    and "w' = w\<lparr>commands := commands w @ [c]\<rparr>"
    and "CHR 0x00 \<notin> set c"
  using assms
  by (auto simp: ShellRunner_def Let_def split: if_splits sum.splits)


lemma ShellRunner_shell_giving:
  assumes "CHR 0x00 \<notin> set c"
  shows "\<exists>sr. ShellRunner (shell_giving out rc) c w = (Inr sr, w\<lparr>commands := commands w @ [c]\<rparr>)
           \<and> shell_output sr = out \<and> exit_code sr = rc"
  using assms by (simp add: ShellRunner_def shell_giving_def shell_returning_def Let_def)

lemma find_slurm_nodes_succeeds:
  assumes "ShellRunner e (sinfo_command states partitions) w = (Inr sr, w')"
    and "exit_code sr = 0"
  shows "find_slurm_nodes e states partitions w =
         (Inr (node_names (shell_output sr)),
          if node_names (shell_output sr) = []
          then print (''no nodes found! '' @ sinfo_command states partitions) w' else w')"
  using assms ShellRunner_returns(1) [OF assms(1)]
  by (simp add: find_slurm_nodes_def Let_def replace_after_split purge_element_def first_fields
      node_names_def)



lemma is_space_SP [simp]: "is_space SP"
  by (simp add: is_space_def)

lemma is_space_TAB [simp]: "is_space TAB"
  by (simp add: is_space_def)

lemma well_formed_line_blank:
  assumes "well_formed_line l"
  shows "blank l \<longleftrightarrow> l = []"
proof
  assume b: "blank l"
  show "l = []"
  proof (rule ccontr)
    assume ne: "l \<noteq> []"
    then have "hd l \<in> set l" by simp
    with b have "is_space (hd l)" by (simp add: blank_def list_all_iff)
    with assms \<open>hd l \<in> set l\<close> have "hd l = SP"
      by (simp add: well_formed_line_def list_all_iff)
    with assms ne show False by (simp add: well_formed_line_def)
  qed
next
  assume "l = []"
  then show "blank l" by (simp add: blank_def)
qed

lemma well_formed_line_first_token:
  assumes "well_formed_line l"
  shows "first_token l = takeWhile (\<lambda>c. c \<noteq> SP) l"
proof (cases l)
  case Nil
  then show ?thesis by (simp add: first_token_def)
next
  case (Cons a as)
  with assms have "a \<noteq> SP" and sp: "\<And>c. c \<in> set l \<Longrightarrow> is_space c \<Longrightarrow> c = SP"
    by (auto simp: well_formed_line_def list_all_iff)
  then have "\<not> is_space a" using Cons by auto
  then have "dropWhile is_space l = l" using Cons by simp
  moreover have "takeWhile (\<lambda>c. \<not> is_space c) l = takeWhile (\<lambda>c. c \<noteq> SP) l"
    by (rule takeWhile_cong) (auto dest: sp)
  ultimately show ?thesis by (simp add: first_token_def)
qed

lemma well_formed_node_names:
  assumes "well_formed out"
  shows "node_names out = map first_token (non_blank_lines out)"
proof -
  have wf: "\<And>l. l \<in> set (py_split NL out) \<Longrightarrow> well_formed_line l"
    using assms by (simp add: well_formed_def list_all_iff)
  have "filter (\<lambda>l. l \<noteq> []) (py_split NL out) = filter (\<lambda>l. \<not> blank l) (py_split NL out)"
    by (rule filter_cong) (auto simp: well_formed_line_blank wf)
  moreover have "map (takeWhile (\<lambda>c. c \<noteq> SP)) (filter (\<lambda>l. \<not> blank l) (py_split NL out))
      = map first_token (filter (\<lambda>l. \<not> blank l) (py_split NL out))"
    by (rule map_cong) (auto simp: well_formed_line_first_token wf)
  ultimately show ?thesis by (simp add: node_names_def non_blank_lines_def)
qed

lemma sinfo_command_sample [simp]: "CHR 0x00 \<notin> set (sinfo_command ''mixed,idle'' ''gpu'')"
  by (simp add: sinfo_command_def)

section \<open>Node discovery on well-formed output\<close>

text \<open>
  Claim C3. When the scheduler query succeeds and its output is well formed, with N
  lines that are not blank, \<open>find_slurm_nodes\<close> returns exactly N node names, and the
  i-th name is the first token, delimited by white space, of the i-th line that is not
  blank: the order of the lines is kept.
\<close>

theorem find_slurm_nodes_first_tokens:
  assumes "ShellRunner e (sinfo_command states partitions) w = (Inr sr, w')"
    and "exit_code sr = 0"
    and "well_formed (shell_output sr)"
  shows "\<exists>nodes. fst (find_slurm_nodes e states partitions w) = Inr nodes
           \<and> length nodes = length (non_blank_lines (shell_output sr))
           \<and> (\<forall>i < length nodes. nodes ! i = first_token (non_blank_lines (shell_output sr) ! i))"
  using assms by (simp add: find_slurm_nodes_succeeds well_formed_node_names)

theorem find_slurm_nodes_first_tokens_witness:
  "fst (find_slurm_nodes (shell_giving (''gpu01 idle* ...'' @ [NL] @ ''gpu02 mixed ...'' @ [NL]) 0)
          ''mixed,idle'' ''gpu'' new_world) = Inr [''gpu01'', ''gpu02'']"
proof -
  let ?out = "''gpu01 idle* ...'' @ [NL] @ ''gpu02 mixed ...'' @ [NL]"
  let ?e = "shell_giving ?out 0"
  obtain sr w' where run: "ShellRunner ?e (sinfo_command ''mixed,idle'' ''gpu'') new_world = (Inr sr, w')"
    and out: "shell_output sr = ?out" and rc: "exit_code sr = 0"
    using ShellRunner_shell_giving [of "sinfo_command ''mixed,idle'' ''gpu''" ?out 0 new_world]
    by auto
  have wf: "well_formed (shell_output sr)"
    unfolding out by code_simp
  have nb: "non_blank_lines ?out = [''gpu01 idle* ...'', ''gpu02 mixed ...'']"
    by code_simp
  have ft: "first_token ''gpu01 idle* ...'' = ''gpu01''" "first_token ''gpu02 mixed ...'' = ''gpu02''"
    by code_simp+
  from find_slurm_nodes_first_tokens [OF run rc wf]
  obtain nodes where n: "fst (find_slurm_nodes ?e ''mixed,idle'' ''gpu'' new_world) = Inr nodes"
    and len: "length nodes = 2"
    and el: "\<forall>i<length nodes. nodes ! i = first_token ([''gpu01 idle* ...'', ''gpu02 mixed ...''] ! i)"
    unfolding out nb by auto
  from len el have "nodes ! 0 = ''gpu01''" "nodes ! 1 = ''gpu02''"
    using ft by auto
  with len have "nodes = [''gpu01'', ''gpu02'']"
    by (auto simp: list_eq_iff_nth_eq less_Suc_eq numeral_2_eq_2)
  with n show ?thesis by simp
qed

lemma py_split_append: "py_split sep (a @ sep # b) = py_split sep a @ py_split sep b"
proof (induction a)
  case Nil
  then show ?case by (simp add: Let_def)
next
  case (Cons c cs)
  have "py_split sep cs \<noteq> []" by (rule py_split_not_Nil)
  with Cons show ?case by (cases "py_split sep cs") (auto simp: Let_def)
qed

lemma non_empty_fields_join:
  "filter (\<lambda>l. l \<noteq> []) (py_split sep (join_with [sep] ls))
   = filter (\<lambda>l. l \<noteq> []) (concat (map (py_split sep) ls))"
proof (induction ls)
  case Nil
  then show ?case by simp
next
  case (Cons x xs)
  show ?case
  proof (cases xs)
    case Nil
    then show ?thesis by simp
  next
    case (Cons y ys)
    then have "join_with [sep] (x # xs) = x @ sep # join_with [sep] xs" by simp
    then show ?thesis using Cons.IH by (simp add: py_split_append)
  qed
qed

lemma non_empty_fields_of_line:
  "filter (\<lambda>l. l \<noteq> []) (py_split sep []) = []"
  by simp

lemma concat_fields_without_empty_lines:
  "filter (\<lambda>l. l \<noteq> []) (concat (map (py_split sep) (filter (\<lambda>l. l \<noteq> []) ls)))
   = filter (\<lambda>l. l \<noteq> []) (concat (map (py_split sep) ls))"
  by (induction ls) auto

lemma node_names_without_empty_lines:
  "node_names (join_with [NL] (filter (\<lambda>l. l \<noteq> []) ls)) = node_names (join_with [NL] ls)"
  by (simp add: node_names_def non_empty_fields_join concat_fields_without_empty_lines)

lemma py_split_single: "sep \<notin> set l \<Longrightarrow> py_split sep l = [l]"
  by (induction l) (auto simp: Let_def)

lemma node_names_of_lines:
  assumes "\<And>l. l \<in> set ls \<Longrightarrow> NL \<notin> set l"
  shows "node_names (join_with [NL] ls) = map (takeWhile (\<lambda>c. c \<noteq> SP)) (filter (\<lambda>l. l \<noteq> []) ls)"
proof -
  have "concat (map (py_split NL) ls) = ls"
    using assms by (induction ls) (simp_all add: py_split_single)
  then show ?thesis by (simp add: node_names_def non_empty_fields_join)
qed

section \<open>Blank lines in the scheduler's output\<close>

text \<open>
  Claim C4 says that, for every output of the discovery command, blank lines among the
  output lines contribute no entry to the node list. That fails for a blank line that
  holds a character: between two lines that name nodes, a line of one space adds the
  empty text as a third entry.
\<close>

theorem blank_line_counterexample:
  "blank '' ''
   \<and> fst (find_slurm_nodes
            (shell_giving (''gpu01 idle'' @ [NL] @ '' '' @ [NL] @ ''gpu02 mixed'' @ [NL]) 0)
            ''mixed,idle'' ''gpu'' new_world) = Inr [''gpu01'', '''', ''gpu02'']
   \<and> fst (find_slurm_nodes
            (shell_giving (''gpu01 idle'' @ [NL] @ ''gpu02 mixed'' @ [NL]) 0)
            ''mixed,idle'' ''gpu'' new_world) = Inr [''gpu01'', ''gpu02'']"
proof -
  have "blank '' ''" by code_simp
  moreover have "fst (find_slurm_nodes
            (shell_giving (''gpu01 idle'' @ [NL] @ '' '' @ [NL] @ ''gpu02 mixed'' @ [NL]) 0)
            ''mixed,idle'' ''gpu'' new_world) = Inr [''gpu01'', '''', ''gpu02'']"
    by code_simp
  moreover have "fst (find_slurm_nodes
            (shell_giving (''gpu01 idle'' @ [NL] @ ''gpu02 mixed'' @ [NL]) 0)
            ''mixed,idle'' ''gpu'' new_world) = Inr [''gpu01'', ''gpu02'']"
    by code_simp
  ultimately show ?thesis by blast
qed

text \<open>
  Claim C4, amended. For every output of the discovery command, the lines that hold no
  character contribute no entry to the node list of \<open>find_slurm_nodes\<close>: the output
  with such lines among its lines and the output without them give the same list, and
  the list has exactly one entry for each line that holds at least one character (a line
  of white space among them).
\<close>

theorem empty_lines_contribute_nothing:
  assumes "ShellRunner e (sinfo_command states partitions) w = (Inr sr, w1)"
    and "exit_code sr = 0"
    and "shell_output sr = join_with [NL] ls"
    and "ShellRunner e' (sinfo_command states partitions) w = (Inr sr', w2)"
    and "exit_code sr' = 0"
    and "shell_output sr' = join_with [NL] (filter (\<lambda>l. l \<noteq> []) ls)"
  shows "fst (find_slurm_nodes e states partitions w) = fst (find_slurm_nodes e' states partitions w)
         \<and> ((\<forall>l \<in> set ls. NL \<notin> set l) \<longrightarrow>
              (\<exists>nodes. fst (find_slurm_nodes e states partitions w) = Inr nodes
                 \<and> length nodes = length (filter (\<lambda>l. l \<noteq> []) ls)))"
  using assms(2,3,5,6)
  by (simp add: find_slurm_nodes_succeeds [OF assms(1,2)] find_slurm_nodes_succeeds [OF assms(4,5)]
      node_names_without_empty_lines node_names_of_lines)

theorem empty_lines_contribute_nothing_witness:
  "fst (find_slurm_nodes (shell_giving ([NL] @ ''gpu01 idle'' @ [NL, NL, NL] @ ''gpu02 mixed'' @ [NL]) 0)
          ''mixed,idle'' ''gpu'' new_world)
   = fst (find_slurm_nodes (shell_giving (''gpu01 idle'' @ [NL] @ ''gpu02 mixed'') 0)
          ''mixed,idle'' ''gpu'' new_world)"
proof -
  let ?ls = "['''', ''gpu01 idle'', '''', '''', ''gpu02 mixed'', '''']"
  let ?out = "[NL] @ ''gpu01 idle'' @ [NL, NL, NL] @ ''gpu02 mixed'' @ [NL]"
  let ?out' = "''gpu01 idle'' @ [NL] @ ''gpu02 mixed''"
  obtain sr w1 where a: "ShellRunner (shell_giving ?out 0) (sinfo_command ''mixed,idle'' ''gpu'') new_world
        = (Inr sr, w1)" and "shell_output sr = ?out" and a2: "exit_code sr = 0"
    using ShellRunner_shell_giving [of "sinfo_command ''mixed,idle'' ''gpu''" ?out 0 new_world]
    by auto
  then have a3: "shell_output sr = join_with [NL] ?ls" by simp
  obtain sr' w2 where b: "ShellRunner (shell_giving ?out' 0) (sinfo_command ''mixed,idle'' ''gpu'') new_world
        = (Inr sr', w2)" and "shell_output sr' = ?out'" and b2: "exit_code sr' = 0"
    using ShellRunner_shell_giving [of "sinfo_command ''mixed,idle'' ''gpu''" ?out' 0 new_world]
    by auto
  then have b3: "shell_output sr' = join_with [NL] (filter (\<lambda>l. l \<noteq> []) ?ls)" by simp
  show ?thesis
    by (rule empty_lines_contribute_nothing [OF a a2 a3 b b2 b3, THEN conjunct1])
qed

section \<open>Failure of the scheduler query\<close>




lemma first_token_no_space: "c \<in> set (first_token l) \<Longrightarrow> \<not> is_space c"
  unfolding first_token_def by (auto dest: set_takeWhileD)

lemma first_token_not_empty:
  assumes "\<not> blank l"
  shows "first_token l \<noteq> []"
proof -
  from assms have ne: "dropWhile is_space l \<noteq> []"
    by (auto simp: blank_def list_all_iff)
  then have "\<not> is_space (hd (dropWhile is_space l))"
    by (rule hd_dropWhile)
  with ne show ?thesis
    by (cases "dropWhile is_space l") (auto simp: first_token_def)
qed

lemma field_after_space: "l \<noteq> [] \<Longrightarrow> hd l = sep \<Longrightarrow> takeWhile (\<lambda>c. c \<noteq> sep) l = []"
  by (cases l) auto

lemma field_keeps_first: "l \<noteq> [] \<Longrightarrow> hd l \<noteq> sep \<Longrightarrow> hd l \<in> set (takeWhile (\<lambda>c. c \<noteq> sep) l)"
  by (cases l) auto

section \<open>Lines with white space\<close>

text \<open>
  Claim C10. \<open>find_slurm_nodes\<close> discards only the lines that are exactly the empty
  text and takes of every other line the part before the first space character. So a
  line that starts with a space or a tab (in particular one made of spaces and tabs
  only) is not discarded: it gives the empty text as a node name when it starts with a
  space, and a name that holds the tab when it starts with a tab; when the line is not
  blank, that name is not its first token.
\<close>

theorem find_slurm_nodes_splits_on_space_only:
  assumes "ShellRunner e (sinfo_command states partitions) w = (Inr sr, w')"
    and "exit_code sr = 0"
    and "ls = filter (\<lambda>l. l \<noteq> []) (py_split NL (shell_output sr))"
  shows "\<exists>nodes. fst (find_slurm_nodes e states partitions w) = Inr nodes
           \<and> length nodes = length ls
           \<and> (\<forall>i < length ls.
                nodes ! i = hd (py_split SP (ls ! i))
                \<and> (hd (ls ! i) = SP \<longrightarrow> nodes ! i = [])
                \<and> (hd (ls ! i) = TAB \<longrightarrow> TAB \<in> set (nodes ! i))
                \<and> ((hd (ls ! i) = SP \<or> hd (ls ! i) = TAB) \<and> \<not> blank (ls ! i)
                      \<longrightarrow> nodes ! i \<noteq> first_token (ls ! i)))"
proof -
  let ?nodes = "map (takeWhile (\<lambda>c. c \<noteq> SP)) ls"
  have res: "fst (find_slurm_nodes e states partitions w) = Inr ?nodes"
    using assms by (simp add: find_slurm_nodes_succeeds node_names_def)
  have "\<forall>i < length ls.
          ?nodes ! i = hd (py_split SP (ls ! i))
          \<and> (hd (ls ! i) = SP \<longrightarrow> ?nodes ! i = [])
          \<and> (hd (ls ! i) = TAB \<longrightarrow> TAB \<in> set (?nodes ! i))
          \<and> ((hd (ls ! i) = SP \<or> hd (ls ! i) = TAB) \<and> \<not> blank (ls ! i)
                \<longrightarrow> ?nodes ! i \<noteq> first_token (ls ! i))"
  proof (intro allI impI)
    fix i assume i: "i < length ls"
    then have "ls ! i \<in> set ls" by simp
    then have ne: "ls ! i \<noteq> []" using assms(3) by simp
    have n: "?nodes ! i = takeWhile (\<lambda>c. c \<noteq> SP) (ls ! i)" using i by simp
    have sp: "hd (ls ! i) = SP \<Longrightarrow> ?nodes ! i = []"
      unfolding n using ne by (rule field_after_space)
    have tab: "hd (ls ! i) = TAB \<Longrightarrow> TAB \<in> set (?nodes ! i)"
      unfolding n using field_keeps_first [OF ne, of SP] by simp
    have diff: "?nodes ! i \<noteq> first_token (ls ! i)"
      if h: "hd (ls ! i) = SP \<or> hd (ls ! i) = TAB" and nb: "\<not> blank (ls ! i)"
    proof (cases "hd (ls ! i) = SP")
      case True
      then show ?thesis using sp first_token_not_empty [OF nb] by simp
    next
      case False
      with h have "TAB \<in> set (?nodes ! i)" using tab by simp
      moreover have "TAB \<notin> set (first_token (ls ! i))"
        using first_token_no_space [of TAB] by auto
      ultimately show ?thesis by metis
    qed
    show "?nodes ! i = hd (py_split SP (ls ! i))
          \<and> (hd (ls ! i) = SP \<longrightarrow> ?nodes ! i = [])
          \<and> (hd (ls ! i) = TAB \<longrightarrow> TAB \<in> set (?nodes ! i))
          \<and> ((hd (ls ! i) = SP \<or> hd (ls ! i) = TAB) \<and> \<not> blank (ls ! i)
                \<longrightarrow> ?nodes ! i \<noteq> first_token (ls ! i))"
      using n sp tab diff by (simp add: hd_py_split)
  qed
  moreover have "length ?nodes = length ls" by simp
  ultimately show ?thesis using res by blast
qed

theorem find_slurm_nodes_splits_on_space_only_witness:
  "\<exists>nodes. fst (find_slurm_nodes (shell_giving ('' '' @ [NL, TAB] @ ''gpu01 idle'' @ [NL] @ '' gpu02 mixed'') 0)
                   ''mixed,idle'' ''gpu'' new_world) = Inr nodes
     \<and> length nodes = 3 \<and> nodes ! 0 = [] \<and> TAB \<in> set (nodes ! 1) \<and> nodes ! 2 = []
     \<and> nodes ! 2 \<noteq> first_token '' gpu02 mixed''"
proof -
  let ?out = "'' '' @ [NL, TAB] @ ''gpu01 idle'' @ [NL] @ '' gpu02 mixed''"
  let ?e = "shell_giving ?out 0"
  let ?ls = "['' '', TAB # ''gpu01 idle'', '' gpu02 mixed'']"
  obtain sr w' where run: "ShellRunner ?e (sinfo_command ''mixed,idle'' ''gpu'') new_world = (Inr sr, w')"
    and out: "shell_output sr = ?out" and rc: "exit_code sr = 0"
    using ShellRunner_shell_giving [of "sinfo_command ''mixed,idle'' ''gpu''" ?out 0 new_world]
    by auto
  have "filter (\<lambda>l. l \<noteq> []) (py_split NL ?out) = ?ls"
    by code_simp
  then have ls: "?ls = filter (\<lambda>l. l \<noteq> []) (py_split NL (shell_output sr))"
    by (simp add: out)
  have nb: "\<not> blank '' gpu02 mixed''"
    by code_simp
  from find_slurm_nodes_splits_on_space_only [OF run rc ls]
  obtain nodes where n: "fst (find_slurm_nodes ?e ''mixed,idle'' ''gpu'' new_world) = Inr nodes"
    and len: "length nodes = length ?ls"
    and el: "\<forall>i < length ?ls.
                nodes ! i = hd (py_split SP (?ls ! i))
                \<and> (hd (?ls ! i) = SP \<longrightarrow> nodes ! i = [])
                \<and> (hd (?ls ! i) = TAB \<longrightarrow> TAB \<in> set (nodes ! i))
                \<and> ((hd (?ls ! i) = SP \<or> hd (?ls ! i) = TAB) \<and> \<not> blank (?ls ! i)
                      \<longrightarrow> nodes ! i \<noteq> first_token (?ls ! i))"
    by blast
  have "nodes ! 0 = []"
    using el [rule_format, of 0] by simp
  moreover have "TAB \<in> set (nodes ! 1)"
    using el [rule_format, of 1] by simp
  moreover have "nodes ! 2 = []"
    using el [rule_format, of 2] by simp
  moreover have "nodes ! 2 \<noteq> first_token '' gpu02 mixed''"
    using el [rule_format, of 2] nb by auto
  moreover have "length nodes = 3"
    using len by simp
  ultimately show ?thesis using n by blast
qed

section \<open>Notifications and the value of the drain\<close>


lemma send_email_value: "fst (send_email e CONFIG to from0 subject body w) = Inr v \<Longrightarrow> v = NoneVal"
  by (simp add: send_email_def Let_def split: sum.splits option.splits)


lemma drain_node_silent:
  assumes "ShellRunner e (scontrol_command node reason) w = (Inr sr, w')"
    and "\<not> truthy do_send_email"
  shows "drain_node e CONFIG node reason do_send_email w = (Inr NoneVal, w')"
  using assms by (simp add: drain_node_def Let_def)

lemma drain_node_value:
  "fst (drain_node e CONFIG node reason do_send_email w) = Inr v \<Longrightarrow> v = NoneVal"
  by (auto simp: drain_node_def Let_def split: sum.splits if_splits prod.splits
      dest: send_email_value)



lemma scontrol_command_sample [simp]:
  "CHR 0x00 \<notin> set (scontrol_command ''gpu03'' ''nvidia-smi failure'')"
  by (simp add: scontrol_command_def)




text \<open>
  Claim C6 says that the drain operation returns a boolean, true when the drain
  command's exit status is zero. It does not: with exit status zero the value returned
  is \<^verbatim>\<open>None\<close>, with notification disabled and with notification enabled.
\<close>

theorem drain_node_boolean_counterexample:
  "run (shell_giving [] 0) (scontrol_command ''gpu03'' ''nvidia-smi failure'')
     = Inr \<lparr>stdout = Decodes [], stderr = Decodes [], returncode = 0\<rparr>
   \<and> fst (drain_node (shell_giving [] 0) sample_config ''gpu03'' ''nvidia-smi failure''
            (BoolVal False) new_world) = Inr NoneVal
   \<and> fst (drain_node (shell_giving [] 0) sample_config ''gpu03'' ''nvidia-smi failure''
            (BoolVal True) new_world) = Inr NoneVal
   \<and> Inr NoneVal \<noteq> (Inr (BoolVal True) :: error + pyval)"
proof -
  have "run (shell_giving [] 0) (scontrol_command ''gpu03'' ''nvidia-smi failure'')
     = Inr \<lparr>stdout = Decodes [], stderr = Decodes [], returncode = 0\<rparr>"
    by (simp add: shell_giving_def shell_returning_def)
  moreover have "fst (drain_node (shell_giving [] 0) sample_config ''gpu03'' ''nvidia-smi failure''
            (BoolVal False) new_world) = Inr NoneVal"
    by code_simp
  moreover have "fst (drain_node (shell_giving [] 0) sample_config ''gpu03'' ''nvidia-smi failure''
            (BoolVal True) new_world) = Inr NoneVal"
    by code_simp
  ultimately show ?thesis by simp
qed

text \<open>
  Claim C6, amended. For every node and reason, the drain operation returns no boolean:
  whenever \<open>drain_node\<close> returns, its value is \<^verbatim>\<open>None\<close>, whether the exit status of the
  drain command is zero or not. It does return, with either status, when notification
  is disabled and the drain command was run and its output decoded.
\<close>

theorem drain_node_returns_none:
  "(\<forall>v. fst (drain_node e CONFIG node reason do_send_email w) = Inr v \<longrightarrow> v = NoneVal)
   \<and> (\<forall>sr w'. ShellRunner e (scontrol_command node reason) w = (Inr sr, w')
          \<and> \<not> truthy do_send_email \<longrightarrow>
          drain_node e CONFIG node reason do_send_email w = (Inr NoneVal, w')
          \<and> commands w' = commands w @ [scontrol_command node reason])"
  using drain_node_value drain_node_silent ShellRunner_returns(2)
  by (metis (no_types, lifting) world.select_convs(2) world.surjective world.update_convs(2))

theorem drain_node_returns_none_witness:
  "drain_node (shell_giving [] 0) sample_config ''gpu03'' ''nvidia-smi failure'' (BoolVal False) new_world
   = (Inr NoneVal, new_world\<lparr>commands := [scontrol_command ''gpu03'' ''nvidia-smi failure'']\<rparr>)
   \<and> drain_node (shell_giving [] 1) sample_config ''gpu03'' ''nvidia-smi failure'' (BoolVal False) new_world
   = (Inr NoneVal, new_world\<lparr>commands := [scontrol_command ''gpu03'' ''nvidia-smi failure'']\<rparr>)"
proof -
  let ?c = "scontrol_command ''gpu03'' ''nvidia-smi failure''"
  let ?w = "new_world\<lparr>commands := commands new_world @ [?c]\<rparr>"
  have w: "?w = new_world\<lparr>commands := [?c]\<rparr>" by (simp add: new_world_def)
  have f: "\<not> truthy (BoolVal False)" by simp
  obtain sr0 where a: "ShellRunner (shell_giving [] 0) ?c new_world = (Inr sr0, ?w)"
    using ShellRunner_shell_giving [of ?c "[]" 0 new_world] by auto
  obtain sr1 where b: "ShellRunner (shell_giving [] 1) ?c new_world = (Inr sr1, ?w)"
    using ShellRunner_shell_giving [of ?c "[]" 1 new_world] by auto
  have "drain_node (shell_giving [] 0) sample_config ''gpu03'' ''nvidia-smi failure'' (BoolVal False)
          new_world = (Inr NoneVal, ?w)"
    using drain_node_returns_none [of "shell_giving [] 0" sample_config "''gpu03''"
        "''nvidia-smi failure''" "BoolVal False" new_world] a f
    by blast
  moreover have "drain_node (shell_giving [] 1) sample_config ''gpu03'' ''nvidia-smi failure'' (BoolVal False)
          new_world = (Inr NoneVal, ?w)"
    using drain_node_returns_none [of "shell_giving [] 1" sample_config "''gpu03''"
        "''nvidia-smi failure''" "BoolVal False" new_world] b f
    by blast
  ultimately show ?thesis by (simp only: w) 
qed

section \<open>The verdict of the probe\<close>

lemma value_error_only:
  "(if a then Inl ValueError else if b then Inl ValueError else if c then Inl ValueError else Inr x)
   = Inl err \<Longrightarrow> err = ValueError"
  by (simp split: if_splits)

lemma py_int_error: "py_int lim s = Inl err \<Longrightarrow> err = ValueError"
  unfolding py_int_def Let_def by (rule value_error_only)

lemma check_gpu_no_run:
  assumes "cfg_get CONFIG ''ssh'' ''user'' = Inr u"
    and "cfg_get CONFIG ''ssh'' ''keyfile'' = Inr k"
    and "ShellRunner e (ssh_command u node k) w = (Inl err, w')"
  shows "check_gpu e CONFIG node do_send_email w = (Inl err, w')"
  using assms by (simp add: check_gpu_def Let_def)

lemma check_gpu_lines:
  assumes "cfg_get CONFIG ''ssh'' ''user'' = Inr u"
    and "cfg_get CONFIG ''ssh'' ''keyfile'' = Inr k"
    and "ShellRunner e (ssh_command u node k) w = (Inr sr, w')"
    and "ls = filter (\<lambda>l. l \<noteq> []) (py_split NL (shell_output sr))"
  shows "check_gpu e CONFIG node do_send_email w =
     (case getitem ls (- 1) of
        Inl err \<Rightarrow> (Inl err, w')
      | Inr ssh_exit_code \<Rightarrow>
        case (if success sr
              then (case py_int (int_max_str_digits e) ssh_exit_code of
                      Inl err \<Rightarrow> Inl err
                    | Inr n \<Rightarrow> Inr (n = 0))
              else Inr False) of
          Inl err \<Rightarrow> (Inl err, w')
        | Inr ok \<Rightarrow>
          case (if \<not> ok \<and> truthy do_send_email then
                  (case cfg_get CONFIG ''email'' ''to'' of
                     Inl err \<Rightarrow> (Inl err, w')
                   | Inr email_to \<Rightarrow>
                   case cfg_get CONFIG ''email'' ''from'' of
                     Inl err \<Rightarrow> (Inl err, w')
                   | Inr email_from \<Rightarrow>
                       send_email e CONFIG email_to email_from
                         (''gpu-checker has detected an error on node '' @ node)
                         (command_report sr) w')
                else (Inr NoneVal, w')) of
            (Inl err, w2) \<Rightarrow> (Inl err, w2)
          | (Inr sent, w2) \<Rightarrow>
              (Inr ok, if ok then print (''gpu works on node '' @ node) w2 else w2))"
  using assms
  by (simp add: check_gpu_def Let_def replace_after_split purge_element_def)

lemma check_gpu_no_line:
  assumes "cfg_get CONFIG ''ssh'' ''user'' = Inr u"
    and "cfg_get CONFIG ''ssh'' ''keyfile'' = Inr k"
    and "ShellRunner e (ssh_command u node k) w = (Inr sr, w')"
    and "filter (\<lambda>l. l \<noteq> []) (py_split NL (shell_output sr)) = []"
  shows "check_gpu e CONFIG node do_send_email w = (Inl IndexError, w')"
  by (simp add: check_gpu_lines [OF assms(1-3) assms(4) [symmetric]] getitem_last)

lemma check_gpu_bad_status:
  assumes "cfg_get CONFIG ''ssh'' ''user'' = Inr u"
    and "cfg_get CONFIG ''ssh'' ''keyfile'' = Inr k"
    and "ShellRunner e (ssh_command u node k) w = (Inr sr, w')"
    and "ls = filter (\<lambda>l. l \<noteq> []) (py_split NL (shell_output sr))"
    and "ls \<noteq> []"
    and "exit_code sr = 0"
    and "py_int (int_max_str_digits e) (last ls) = Inl err"
  shows "check_gpu e CONFIG node do_send_email w = (Inl ValueError, w')"
  using assms(5-7) py_int_error [OF assms(7)] ShellRunner_returns(1) [OF assms(3)]
  by (simp add: check_gpu_lines [OF assms(1-4)] getitem_last)

lemma check_gpu_healthy:
  assumes "cfg_get CONFIG ''ssh'' ''user'' = Inr u"
    and "cfg_get CONFIG ''ssh'' ''keyfile'' = Inr k"
    and "ShellRunner e (ssh_command u node k) w = (Inr sr, w')"
    and "ls = filter (\<lambda>l. l \<noteq> []) (py_split NL (shell_output sr))"
    and "ls \<noteq> []"
    and "exit_code sr = 0"
    and "py_int (int_max_str_digits e) (last ls) = Inr 0"
  shows "check_gpu e CONFIG node do_send_email w
         = (Inr True, print (''gpu works on node '' @ node) w')"
  using assms(5-7) ShellRunner_returns(1) [OF assms(3)]
  by (simp add: check_gpu_lines [OF assms(1-4)] getitem_last)

lemma check_gpu_unhealthy:
  assumes "cfg_get CONFIG ''ssh'' ''user'' = Inr u"
    and "cfg_get CONFIG ''ssh'' ''keyfile'' = Inr k"
    and "ShellRunner e (ssh_command u node k) w = (Inr sr, w')"
    and "ls = filter (\<lambda>l. l \<noteq> []) (py_split NL (shell_output sr))"
    and "ls \<noteq> []"
    and "exit_code sr \<noteq> 0
         \<or> (\<exists>n. py_int (int_max_str_digits e) (last ls) = Inr n \<and> n \<noteq> 0)"
    and "\<not> truthy do_send_email"
  shows "check_gpu e CONFIG node do_send_email w = (Inr False, w')"
  using assms(5-7) ShellRunner_returns(1) [OF assms(3)]
  by (auto simp: check_gpu_lines [OF assms(1-4)] getitem_last)

lemma verdict_true:
  assumes "fst (case gi of
                  Inl err \<Rightarrow> (Inl err, w)
                | Inr code \<Rightarrow>
                  case (if rc0 then (case pi code of Inl err \<Rightarrow> Inl err | Inr n \<Rightarrow> Inr (n = (0::int)))
                        else Inr False) of
                    Inl err \<Rightarrow> (Inl err, w)
                  | Inr ok \<Rightarrow>
                    case (if \<not> ok \<and> t then x else (Inr NoneVal, w)) of
                      (Inl err, w') \<Rightarrow> (Inl err, w')
                    | (Inr sent, w') \<Rightarrow> (Inr ok, h ok w')) = (Inr True :: error + bool)"
  shows "\<exists>code. gi = Inr code \<and> rc0 \<and> pi code = Inr 0"
proof (cases gi)
  case (Inl err)
  with assms show ?thesis by simp
next
  case (Inr code)
  note gi = this
  show ?thesis
  proof (cases rc0)
    case False
    with assms gi show ?thesis
      by (cases x; cases "fst x"; cases t) auto
  next
    case True
    note rc0 = this
    show ?thesis
    proof (cases "pi code")
      case (Inl err)
      with assms gi rc0 show ?thesis by simp
    next
      case (Inr n)
      with assms gi rc0 show ?thesis
        by (cases x; cases "fst x"; cases t; cases "n = 0") auto
    qed
  qed
qed

text \<open>The probe is reported healthy exactly when the command was run and its output
  decoded, the outer exit status is zero, and the last line of the output that is not
  empty reads as the integer zero.\<close>

lemma check_gpu_healthy_iff:
  "fst (check_gpu e CONFIG node do_send_email w) = Inr True \<longleftrightarrow>
   (\<exists>u k sr w'. cfg_get CONFIG ''ssh'' ''user'' = Inr u \<and> cfg_get CONFIG ''ssh'' ''keyfile'' = Inr k
      \<and> ShellRunner e (ssh_command u node k) w = (Inr sr, w')
      \<and> exit_code sr = 0
      \<and> filter (\<lambda>l. l \<noteq> []) (py_split NL (shell_output sr)) \<noteq> []
      \<and> py_int (int_max_str_digits e)
           (last (filter (\<lambda>l. l \<noteq> []) (py_split NL (shell_output sr)))) = Inr 0)"
  (is "?L \<longleftrightarrow> ?R")
proof
  assume ?R
  then obtain u k sr w' where "cfg_get CONFIG ''ssh'' ''user'' = Inr u"
    and "cfg_get CONFIG ''ssh'' ''keyfile'' = Inr k"
    and "ShellRunner e (ssh_command u node k) w = (Inr sr, w')"
    and "exit_code sr = 0"
    and "filter (\<lambda>l. l \<noteq> []) (py_split NL (shell_output sr)) \<noteq> []"
    and "py_int (int_max_str_digits e)
           (last (filter (\<lambda>l. l \<noteq> []) (py_split NL (shell_output sr)))) = Inr 0"
    by blast
  then show ?L
    using check_gpu_healthy [of CONFIG u k e node w sr w' _ do_send_email, OF _ _ _ refl] by simp
next
  assume L: ?L
  then obtain u where u: "cfg_get CONFIG ''ssh'' ''user'' = Inr u"
    by (cases "cfg_get CONFIG ''ssh'' ''user''") (simp_all add: check_gpu_def)
  with L obtain k where k: "cfg_get CONFIG ''ssh'' ''keyfile'' = Inr k"
    by (cases "cfg_get CONFIG ''ssh'' ''keyfile''") (simp_all add: check_gpu_def)
  obtain made w' where run: "ShellRunner e (ssh_command u node k) w = (made, w')"
    by (cases "ShellRunner e (ssh_command u node k) w") blast
  with L u k obtain sr where sr: "made = Inr sr"
    by (cases made) (simp_all add: check_gpu_no_run)
  note run = run [unfolded sr]
  let ?ls = "filter (\<lambda>l. l \<noteq> []) (py_split NL (shell_output sr))"
  from L have "\<exists>code. getitem ?ls (- 1) = Inr code
      \<and> success sr
      \<and> py_int (int_max_str_digits e) code = Inr 0"
    unfolding check_gpu_lines [OF u k run refl, of do_send_email]
    by (rule verdict_true)
  then have "?ls \<noteq> [] \<and> exit_code sr = 0
      \<and> py_int (int_max_str_digits e) (last ?ls) = Inr 0"
    using ShellRunner_returns(1) [OF run]
    by (auto simp: getitem_last split: if_splits)
  with u k run show ?R by blast
qed

lemma ssh_command_sample [simp]:
  "CHR 0x00 \<notin> set (ssh_command ''root'' ''gpu03'' ''/root/.ssh/id'')"
  by (simp add: ssh_command_def)

text \<open>
  Claim C1 says that \<open>check_gpu\<close> turns every failure into the verdict false and never
  raises an exception, in particular when the outer command fails and its output holds
  no line with an exit status. The module does not do that: whenever the output of the
  probe command holds no character, whatever the exit status, the last line is taken of
  an empty list and \<open>check_gpu\<close> raises \<^verbatim>\<open>IndexError\<close>; no verdict is returned and no
  notification is sent.
\<close>

theorem check_gpu_without_output_raises:
  assumes "cfg_get CONFIG ''ssh'' ''user'' = Inr u"
    and "cfg_get CONFIG ''ssh'' ''keyfile'' = Inr k"
    and "ShellRunner e (ssh_command u node k) w = (Inr sr, w')"
    and "shell_output sr = []"
  shows "check_gpu e CONFIG node do_send_email w = (Inl IndexError, w')"
  using assms by (simp add: check_gpu_no_line)

theorem check_gpu_without_output_raises_witness:
  "check_gpu (shell_giving [] 255) sample_config ''gpu03'' (BoolVal True) new_world
   = (Inl IndexError,
      new_world\<lparr>commands := [ssh_command ''root'' ''gpu03'' ''/root/.ssh/id'']\<rparr>)"
proof -
  let ?c = "ssh_command ''root'' ''gpu03'' ''/root/.ssh/id''"
  let ?w = "new_world\<lparr>commands := commands new_world @ [?c]\<rparr>"
  have w: "?w = new_world\<lparr>commands := [?c]\<rparr>" by (simp add: new_world_def)
  have u: "cfg_get sample_config ''ssh'' ''user'' = Inr ''root''"
    by code_simp
  have k: "cfg_get sample_config ''ssh'' ''keyfile'' = Inr ''/root/.ssh/id''"
    by code_simp
  obtain sr where run: "ShellRunner (shell_giving [] 255) ?c new_world = (Inr sr, ?w)"
    and out: "shell_output sr = []"
    using ShellRunner_shell_giving [of ?c "[]" 255 new_world] by auto
  show ?thesis
    using check_gpu_without_output_raises [OF u k run out, of "BoolVal True"]
    by (simp only: w)
qed

text \<open>
  Claim C2 says that the verdict of \<open>check_gpu\<close> is true if and only if the outer exit
  status is zero and the last line that is not blank reads as the integer zero, and that
  every other combination yields the verdict false. The first half holds, for the last
  line that is not empty (lemma \<open>check_gpu_healthy_iff\<close>). The second half fails: when
  the outer exit status is zero and the last line of the output that is not empty does
  not read as an integer, \<open>check_gpu\<close> raises \<^verbatim>\<open>ValueError\<close> instead of returning
  false.
\<close>

theorem check_gpu_unparsable_status_raises:
  assumes "cfg_get CONFIG ''ssh'' ''user'' = Inr u"
    and "cfg_get CONFIG ''ssh'' ''keyfile'' = Inr k"
    and "ShellRunner e (ssh_command u node k) w = (Inr sr, w')"
    and "exit_code sr = 0"
    and "ls = filter (\<lambda>l. l \<noteq> []) (py_split NL (shell_output sr))"
    and "ls \<noteq> []"
    and "py_int (int_max_str_digits e) (last ls) = Inl err"
  shows "check_gpu e CONFIG node do_send_email w = (Inl ValueError, w')"
  using assms by (simp add: check_gpu_bad_status)

theorem check_gpu_unparsable_status_raises_witness:
  "check_gpu (shell_giving (''abc'' @ [NL]) 0) sample_config ''gpu03'' (BoolVal True) new_world
   = (Inl ValueError,
      new_world\<lparr>commands := [ssh_command ''root'' ''gpu03'' ''/root/.ssh/id'']\<rparr>)"
proof -
  let ?e = "shell_giving (''abc'' @ [NL]) 0"
  let ?c = "ssh_command ''root'' ''gpu03'' ''/root/.ssh/id''"
  let ?w = "new_world\<lparr>commands := commands new_world @ [?c]\<rparr>"
  have w: "?w = new_world\<lparr>commands := [?c]\<rparr>" by (simp add: new_world_def)
  have u: "cfg_get sample_config ''ssh'' ''user'' = Inr ''root''"
    by code_simp
  have k: "cfg_get sample_config ''ssh'' ''keyfile'' = Inr ''/root/.ssh/id''"
    by code_simp
  obtain sr where run: "ShellRunner ?e ?c new_world = (Inr sr, ?w)"
    and out: "shell_output sr = ''abc'' @ [NL]" and rc: "exit_code sr = 0"
    using ShellRunner_shell_giving [of ?c "''abc'' @ [NL]" 0 new_world] by auto
  have ls: "[''abc''] = filter (\<lambda>l. l \<noteq> []) (py_split NL (shell_output sr))"
    by (simp add: out Let_def)
  have ne: "[''abc''] \<noteq> []" by simp
  have bad: "py_int (int_max_str_digits ?e) (last [''abc'']) = Inl ValueError"
    by code_simp
  show ?thesis
    using check_gpu_unparsable_status_raises [OF u k run rc ls ne bad, of "BoolVal True"]
    by (simp only: w)
qed

section \<open>Boolean options\<close>

lemma drain_node_none_flag:
  "drain_node e CONFIG node reason NoneVal w = drain_node e CONFIG node reason (BoolVal False) w"
  by (simp add: drain_node_def split: prod.splits sum.splits)

lemma check_gpu_none_flag:
  "check_gpu e CONFIG node NoneVal w = check_gpu e CONFIG node (BoolVal False) w"
proof (cases "cfg_get CONFIG ''ssh'' ''user''")
  case (Inl err)
  then show ?thesis by (simp add: check_gpu_def)
next
  case (Inr u)
  note u = this
  show ?thesis
  proof (cases "cfg_get CONFIG ''ssh'' ''keyfile''")
    case (Inl err)
    with u show ?thesis by (simp add: check_gpu_def)
  next
    case (Inr k)
    note k = this
    obtain made w' where run: "ShellRunner e (ssh_command u node k) w = (made, w')"
      by (cases "ShellRunner e (ssh_command u node k) w") blast
    show ?thesis
    proof (cases made)
      case (Inl err)
      with run show ?thesis by (simp add: check_gpu_no_run [OF u k])
    next
      case (Inr sr)
      with run have run': "ShellRunner e (ssh_command u node k) w = (Inr sr, w')" by simp
      show ?thesis
        by (simp add: check_gpu_lines [OF u k run' refl] split: sum.splits)
    qed
  qed
qed

text \<open>
  Claim C9 says that an unrecognized value signals a configuration error rather than
  being silently treated as a boolean. It does not: for the value \<^verbatim>\<open>maybe\<close> of the option
  \<^verbatim>\<open>enabled\<close>, \<open>str_to_bool\<close> returns \<^verbatim>\<open>None\<close>, the start of the program goes through
  without an exception, and the flag counts as false: a failed drain sends no
  notification.
\<close>

theorem str_to_bool_unrecognized_counterexample:
  "cfg_get sample_config ''email'' ''enabled'' = Inr ''maybe''
   \<and> str_to_bool ''maybe'' = NoneVal
   \<and> read_settings sample_config = Inr (''mixed,idle'', ''gpu'', NoneVal)
   \<and> \<not> truthy (str_to_bool ''maybe'')
   \<and> notifications (snd (drain_node (shell_giving [] 1) sample_config ''gpu03''
         ''nvidia-smi failure'' (str_to_bool ''maybe'') new_world)) = []"
proof -
  have "cfg_get sample_config ''email'' ''enabled'' = Inr ''maybe''"
    by code_simp
  moreover have m: "str_to_bool ''maybe'' = NoneVal"
    by code_simp
  moreover have "read_settings sample_config = Inr (''mixed,idle'', ''gpu'', NoneVal)"
    by code_simp
  moreover have "notifications (snd (drain_node (shell_giving [] 1) sample_config ''gpu03''
         ''nvidia-smi failure'' NoneVal new_world)) = []"
    by code_simp
  ultimately show ?thesis by simp
qed

text \<open>
  Claim C9, amended. For every input text, \<open>str_to_bool\<close> maps true, 1, t, y and yes,
  in any mix of upper and lower case, to \<^verbatim>\<open>True\<close> and false, 0, f, n and no to
  \<^verbatim>\<open>False\<close>, and it returns \<^verbatim>\<open>None\<close> for every other text; no error is signalled. At
  the start of the program the value of \<^verbatim>\<open>enabled\<close>, whatever it is, becomes the
  notification flag, and \<open>drain_node\<close> and \<open>check_gpu\<close> do with the flag \<^verbatim>\<open>None\<close>
  what they do with \<^verbatim>\<open>False\<close>.
\<close>

theorem str_to_bool_values:
  "(str_lower s \<in> set [''true'', ''1'', ''t'', ''y'', ''yes''] \<longrightarrow> str_to_bool s = BoolVal True)
   \<and> (str_lower s \<in> set [''false'', ''0'', ''f'', ''n'', ''no''] \<longrightarrow> str_to_bool s = BoolVal False)
   \<and> (str_lower s \<notin> set [''true'', ''1'', ''t'', ''y'', ''yes'', ''false'', ''0'', ''f'', ''n'', ''no'']
        \<longrightarrow> str_to_bool s = NoneVal)
   \<and> (\<forall>states partitions.
          cfg_get CONFIG ''nodes'' ''states_to_check'' = Inr states
          \<and> cfg_get CONFIG ''nodes'' ''partitions_to_check'' = Inr partitions
          \<and> cfg_get CONFIG ''email'' ''enabled'' = Inr s \<longrightarrow>
          read_settings CONFIG = Inr (states, partitions, str_to_bool s))
   \<and> drain_node e CONFIG node reason NoneVal w = drain_node e CONFIG node reason (BoolVal False) w
   \<and> check_gpu e CONFIG node NoneVal w = check_gpu e CONFIG node (BoolVal False) w"
proof -
  have "str_lower s \<in> set [''true'', ''1'', ''t'', ''y'', ''yes''] \<longrightarrow> str_to_bool s = BoolVal True"
    by (simp add: str_to_bool_def)
  moreover have "str_lower s \<in> set [''false'', ''0'', ''f'', ''n'', ''no''] \<longrightarrow> str_to_bool s = BoolVal False"
    by (auto simp: str_to_bool_def)
  moreover have "str_lower s \<notin> set [''true'', ''1'', ''t'', ''y'', ''yes'', ''false'', ''0'', ''f'', ''n'', ''no'']
        \<longrightarrow> str_to_bool s = NoneVal"
    by (simp add: str_to_bool_def)
  moreover have "\<forall>states partitions.
          cfg_get CONFIG ''nodes'' ''states_to_check'' = Inr states
          \<and> cfg_get CONFIG ''nodes'' ''partitions_to_check'' = Inr partitions
          \<and> cfg_get CONFIG ''email'' ''enabled'' = Inr s \<longrightarrow>
          read_settings CONFIG = Inr (states, partitions, str_to_bool s)"
    by (simp add: read_settings_def)
  ultimately show ?thesis
    using drain_node_none_flag check_gpu_none_flag by blast
qed

theorem str_to_bool_values_witness:
  "str_to_bool ''YES'' = BoolVal True \<and> str_to_bool ''No'' = BoolVal False
   \<and> str_to_bool ''on'' = NoneVal
   \<and> read_settings sample_config = Inr (''mixed,idle'', ''gpu'', str_to_bool ''maybe'')"
proof -
  have a: "str_lower ''YES'' \<in> set [''true'', ''1'', ''t'', ''y'', ''yes'']"
    by code_simp
  have b: "str_lower ''No'' \<in> set [''false'', ''0'', ''f'', ''n'', ''no'']"
    by code_simp
  have c: "str_lower ''on'' \<notin> set [''true'', ''1'', ''t'', ''y'', ''yes'', ''false'', ''0'', ''f'', ''n'', ''no'']"
    by code_simp
  have d: "cfg_get sample_config ''nodes'' ''states_to_check'' = Inr ''mixed,idle''
           \<and> cfg_get sample_config ''nodes'' ''partitions_to_check'' = Inr ''gpu''
           \<and> cfg_get sample_config ''email'' ''enabled'' = Inr ''maybe''"
    by code_simp
  have "str_to_bool ''YES'' = BoolVal True"
    using str_to_bool_values [of "''YES''"] a by blast
  moreover have "str_to_bool ''No'' = BoolVal False"
    using str_to_bool_values [of "''No''"] b by blast
  moreover have "str_to_bool ''on'' = NoneVal"
    using str_to_bool_values [of "''on''"] c by blast
  moreover have "read_settings sample_config = Inr (''mixed,idle'', ''gpu'', str_to_bool ''maybe'')"
    using str_to_bool_values [of "''maybe''" sample_config] d by blast
  ultimately show ?thesis by blast
qed

section \<open>The template of the configuration\<close>






end
